theory Spec2Isabelle
  imports Main
begin

section \<open>Strings\<close>

text \<open>
  A Python \<open>str\<close> is modelled as a \<^typ>\<open>string\<close>: one \<^typ>\<open>char\<close> per code point, for
  code points below 256. \<open>length\<close> is Python's \<open>len\<close>.
\<close>

text \<open>
  \<open>str.isspace\<close> of one character, which is also what \<open>\s\<close> matches in a \<open>str\<close> pattern and
  what \<open>str.strip()\<close> removes: TAB, LF, VT, FF, CR, the separators 0x1C to 0x1F, the space,
  NEL (0x85) and the no-break space (0xA0).
\<close>

definition py_isspace :: "char \<Rightarrow> bool" where
  "py_isspace c =
     (let n = (of_char c :: nat)
      in (9 \<le> n \<and> n \<le> 13) \<or> (28 \<le> n \<and> n \<le> 32) \<or> n = 133 \<or> n = 160)"

text \<open>\<open>text.replace(old, new)\<close> for a one-character \<open>old\<close>.\<close>

definition str_replace :: "char \<Rightarrow> string \<Rightarrow> string \<Rightarrow> string" where
  "str_replace old new text = concat (map (\<lambda>c. if c = old then new else [c]) text)"

text \<open>\<open>re.sub(r'\s+', ' ', text)\<close>: every maximal run of whitespace becomes one space.\<close>

function collapse_whitespace :: "string \<Rightarrow> string" where
  "collapse_whitespace [] = []"
| "collapse_whitespace (c # cs) =
     (if py_isspace c then CHR '' '' # collapse_whitespace (dropWhile py_isspace cs)
      else c # collapse_whitespace cs)"
  by pat_completeness auto
termination
  by (relation "measure length") (auto simp: less_Suc_eq_le length_dropWhile_le)

text \<open>\<open>text.strip()\<close>.\<close>

definition strip :: "string \<Rightarrow> string" where
  "strip text = rev (dropWhile py_isspace (rev (dropWhile py_isspace text)))"

text \<open>\<open>text.endswith(suffix)\<close>.\<close>

definition endswith :: "string \<Rightarrow> string \<Rightarrow> bool" where
  "endswith text suffix =
     (length suffix \<le> length text \<and> drop (length text - length suffix) text = suffix)"

section \<open>Title composition\<close>

text \<open>
  The dictionary \<open>replacements\<close> of \<open>sanitize_filename\<close>, in insertion order (the order in
  which \<open>replacements.items()\<close> yields it). The keys are slash, backslash, colon, star,
  question mark, double quote, the angle brackets, the bar, LF, CR and TAB.
\<close>

definition replacements :: "(char \<times> string) list" where
  "replacements =
     [(CHR ''/'', ''-''),
      (CHR 0x5C, ''-''),
      (CHR '':'', '' -''),
      (CHR ''*'', ''''),
      (CHR ''?'', ''''),
      (CHR 0x22, [CHR 0x27]),
      (CHR ''<'', ''(''),
      (CHR ''>'', '')''),
      (CHR ''|'', ''-''),
      (CHR 0x0A, '' ''),
      (CHR 0x0D, '' ''),
      (CHR 0x09, '' '')]"

definition sanitize_filename :: "string \<Rightarrow> string" where
  "sanitize_filename text =
     (let text1 = foldl (\<lambda>t (old, new). str_replace old new t) text replacements;
          text2 = strip (collapse_whitespace text1)
      in if length text2 > 200 then take 197 text2 @ ''...'' else text2)"

definition create_new_title :: "string \<Rightarrow> string \<Rightarrow> string" where
  "create_new_title channel_name video_title =
     (let channel_clean = sanitize_filename channel_name;
          title_clean = sanitize_filename video_title
      in channel_clean @ '' - '' @ title_clean)"

section \<open>Identifier extraction\<close>

text \<open>The log lines a function emits: the level and the message.\<close>

datatype level = DEBUG | INFO | WARNING | ERROR

type_synonym log_line = "level \<times> string"

text \<open>\<open>os.path.basename\<close> of \<open>posixpath\<close>: what follows the last slash.\<close>

definition basename :: "string \<Rightarrow> string" where
  "basename p = rev (takeWhile (\<lambda>c. c \<noteq> CHR ''/'') (rev p))"

text \<open>The character class \<open>[a-zA-Z0-9_-]\<close>.\<close>

definition id_char :: "char \<Rightarrow> bool" where
  "id_char c =
     (let n = (of_char c :: nat)
      in (97 \<le> n \<and> n \<le> 122) \<or> (65 \<le> n \<and> n \<le> 90) \<or> (48 \<le> n \<and> n \<le> 57)
         \<or> c = CHR ''_'' \<or> c = CHR ''-'')"

text \<open>
  Each of the five regular expressions is a literal, the group \<open>([a-zA-Z0-9_-]{11})\<close> and a
  literal: a pattern is the pair of the two literals, in the order of the source list.
\<close>

definition patterns :: "(string \<times> string) list" where
  "patterns =
     [(''['', '']''),
      (''('', '')''),
      (''_'', ''.mp4''),
      (''_'', ''.mkv''),
      (''_'', ''.avi'')]"

text \<open>The pattern matched at the start of \<open>s\<close>: the captured group, if it matches there.\<close>

definition match_here :: "string \<times> string \<Rightarrow> string \<Rightarrow> string option" where
  "match_here pattern s =
     (let opening = fst pattern; closing = snd pattern;
          group1 = take 11 (drop (length opening) s)
      in if take (length opening) s = opening \<and> length group1 = 11 \<and> list_all id_char group1
            \<and> take (length closing) (drop (length opening + 11) s) = closing
         then Some group1 else None)"

text \<open>\<open>re.search(pattern, s)\<close>, then \<open>group(1)\<close>: the match at the leftmost position.\<close>

fun re_search :: "string \<times> string \<Rightarrow> string \<Rightarrow> string option" where
  "re_search pattern [] = match_here pattern []"
| "re_search pattern (c # cs) =
     (case match_here pattern (c # cs) of
        Some group1 \<Rightarrow> Some group1
      | None \<Rightarrow> re_search pattern cs)"

text \<open>The loop over the patterns: the first pattern found in the filename returns.\<close>

fun first_match :: "(string \<times> string) list \<Rightarrow> string \<Rightarrow> string option" where
  "first_match [] filename = None"
| "first_match (pattern # rest) filename =
     (case re_search pattern filename of
        Some video_id \<Rightarrow> Some video_id
      | None \<Rightarrow> first_match rest filename)"

text \<open>
  \<open>extract_youtube_id\<close>: the result and the lines it logs. The path is \<open>None\<close> where the
  caller passes Python's \<open>None\<close>.
\<close>

definition extract_youtube_id :: "string option \<Rightarrow> string option \<times> log_line list" where
  "extract_youtube_id file_path =
     (case file_path of
        None \<Rightarrow> (None, [])
      | Some p \<Rightarrow>
          if p = [] then (None, [])
          else
            (let filename = basename p
             in case first_match patterns filename of
                  Some video_id \<Rightarrow>
                    (Some video_id,
                     [(DEBUG, ''Extracted YouTube ID '' @ [CHR 0x27] @ video_id @ [CHR 0x27]
                              @ '' from: '' @ filename)])
                | None \<Rightarrow> (None, [(WARNING, ''No YouTube ID found in: '' @ filename)])))"

section \<open>Metadata cache and provider\<close>

text \<open>
  A cache entry is the dictionary that \<open>get_youtube_metadata\<close> builds, the only writer of
  the cache: it always has the four keys, so it is never empty and \<open>if cached_metadata:\<close>
  is a test for presence.
\<close>

record metadata =
  title :: string
  channel_name :: string
  description :: string
  published_at :: string

type_synonym cache = "string \<rightharpoonup> metadata"

definition get_cached_metadata :: "cache \<Rightarrow> string \<Rightarrow> metadata option" where
  "get_cached_metadata cache video_id =
     (case cache video_id of Some cached \<Rightarrow> Some cached | None \<Rightarrow> None)"

definition cache_metadata :: "cache \<Rightarrow> string \<Rightarrow> metadata \<Rightarrow> cache" where
  "cache_metadata cache video_id metadata = cache(video_id \<mapsto> metadata)"

text \<open>
  The provider's answer to \<open>videos().list(part="snippet", id=video_id).execute()\<close>: the list
  under the key \<open>items\<close> (empty where the key is missing), each element with its \<open>snippet\<close>
  (\<open>None\<close> where an element has no such key, on which the code raises \<open>KeyError\<close>), or one of
  the two exceptions the code catches. A snippet holds each of its four keys or not.
\<close>

record snippet =
  snippet_title :: "string option"
  channelTitle :: "string option"
  snippet_description :: "string option"
  publishedAt :: "string option"

datatype api_response = Response "snippet option list" | HttpError nat | OtherException

text \<open>\<open>d.get(key, '')\<close>.\<close>

definition get_or_empty :: "string option \<Rightarrow> string" where
  "get_or_empty v = (case v of None \<Rightarrow> [] | Some x \<Rightarrow> x)"

text \<open>
  \<open>get_youtube_metadata\<close> returns its result, the cache as it leaves it, and the requests
  it sent to the provider (the identifiers asked for, at most one).
\<close>

definition get_youtube_metadata ::
  "(string \<Rightarrow> api_response) \<Rightarrow> string \<Rightarrow> cache \<Rightarrow> metadata option \<times> cache \<times> string list" where
  "get_youtube_metadata youtube_service video_id cache =
     (case get_cached_metadata cache video_id of
        Some cached_metadata \<Rightarrow> (Some cached_metadata, cache, [])
      | None \<Rightarrow>
          (case youtube_service video_id of
             Response [] \<Rightarrow> (None, cache, [video_id])
           | Response (None # _) \<Rightarrow> (None, cache, [video_id])
           | Response (Some video_info # _) \<Rightarrow>
               (let metadata =
                      \<lparr>title = get_or_empty (snippet_title video_info),
                       channel_name = get_or_empty (channelTitle video_info),
                       description = get_or_empty (snippet_description video_info),
                       published_at = get_or_empty (publishedAt video_info)\<rparr>
                in (Some metadata, cache_metadata cache video_id metadata, [video_id]))
           | HttpError status \<Rightarrow> (None, cache, [video_id])
           | OtherException \<Rightarrow> (None, cache, [video_id])))"

section \<open>Dates\<close>

text \<open>
  Python's \<open>date\<close> and its subclass \<open>datetime\<close>; \<open>utcoffset\<close> is the offset of an aware
  datetime in seconds east of UTC, \<open>None\<close> for a naive one.
\<close>

record date =
  year :: nat
  month :: nat
  day :: nat

record datetime = date +
  hour :: nat
  minute :: nat
  second :: nat
  microsecond :: nat
  utcoffset :: "int option"

text \<open>\<open>dt.date()\<close>: the year, month and day as the datetime holds them.\<close>

definition date_of :: "datetime \<Rightarrow> date" where
  "date_of dt = \<lparr>year = year dt, month = month dt, day = day dt\<rparr>"

text \<open>
  \<open>parse_youtube_date\<close>. \<open>datetime.fromisoformat\<close> belongs to the Python library: it is a
  parameter, \<open>None\<close> where it raises \<open>ValueError\<close>.
\<close>

definition parse_youtube_date :: "(string \<Rightarrow> datetime option) \<Rightarrow> string \<Rightarrow> datetime option" where
  "parse_youtube_date fromisoformat published =
     (if published = [] then None
      else
        (let published1 =
               (if endswith published ''Z'' then butlast published @ ''+00:00'' else published)
         in fromisoformat (str_replace (CHR ''Z'') ''+00:00'' published1)))"

section \<open>Library items and their edits\<close>

text \<open>The three mutation calls the loop issues, with their argument.\<close>

datatype edit = EditTitle string | EditSummary string | EditOriginallyAvailable date

text \<open>
  A library item as the media server holds it: the attributes the loop reads, \<open>media\<close>
  as the list of the \<open>file\<close> of every part of every media (\<open>None\<close> for a part with no file),
  and which of the mutation calls raise on this item.
\<close>

record plex_item =
  item_title :: string
  summary :: "string option"
  originallyAvailableAt :: "datetime option"
  media :: "string option list list"
  edit_raises :: "edit \<Rightarrow> bool"

text \<open>What a successful call leaves on the server; a date is stored as its midnight.\<close>

fun perform_edit :: "plex_item \<Rightarrow> edit \<Rightarrow> plex_item" where
  "perform_edit item (EditTitle new_title) = item\<lparr>item_title := new_title\<rparr>"
| "perform_edit item (EditSummary video_description) = item\<lparr>summary := Some video_description\<rparr>"
| "perform_edit item (EditOriginallyAvailable date_only) =
     item\<lparr>originallyAvailableAt :=
            Some \<lparr>year = year date_only, month = month date_only, day = day date_only,
                  hour = 0, minute = 0, second = 0, microsecond = 0, utcoffset = None\<rparr>\<rparr>"

text \<open>
  One guarded statement of the \<open>try\<close> block, on the item, the list \<open>changes\<close> and whether an
  exception has left the block: the call is issued when the block is still running and
  the guard holds; a call that raises leaves the block and keeps what was done before.
\<close>

definition try_edit ::
  "bool \<Rightarrow> edit \<Rightarrow> plex_item \<times> edit list \<times> bool \<Rightarrow> plex_item \<times> edit list \<times> bool" where
  "try_edit wanted e st =
     (case st of
        (item, changes, raised) \<Rightarrow>
          if raised \<or> \<not> wanted then st
          else if edit_raises item e then (item, changes, True)
          else (perform_edit item e, changes @ [e], False))"

text \<open>
  The \<open>try\<close> block of the live branch: the three guarded calls in order, the date only
  when a publish date was parsed.
\<close>

definition apply_changes ::
  "plex_item \<Rightarrow> bool \<Rightarrow> string \<Rightarrow> bool \<Rightarrow> string \<Rightarrow> bool \<Rightarrow> datetime option
     \<Rightarrow> plex_item \<times> edit list \<times> bool" where
  "apply_changes item title_changed new_title summary_changed video_description date_changed
     youtube_publish_date =
     (let st1 = try_edit title_changed (EditTitle new_title) (item, [], False);
          st2 = try_edit (summary_changed \<and> video_description \<noteq> [])
                  (EditSummary video_description) st1
      in case youtube_publish_date of
           None \<Rightarrow> st2
         | Some published \<Rightarrow>
             try_edit date_changed (EditOriginallyAvailable (date_of published)) st2)"

section \<open>The loop body\<close>

text \<open>The three flags the loop computes for an item.\<close>

record changed =
  title_changed :: bool
  summary_changed :: bool
  date_changed :: bool

text \<open>
  How the body ended for an item that had metadata: the \<open>try\<close> block ran to its end with
  these calls made, the block was left by an exception after these calls, the dry run
  reported these calls, or no flag was set.
\<close>

datatype applied = Applied "edit list" | ApplyFailed "edit list" | WouldUpdate "edit list" | NoChanges

text \<open>
  The body from \<open>create_new_title\<close> to the end of the \<open>if\<close>/\<open>elif\<close> chain, for an item and
  its metadata: the item as the server holds it afterwards, the flags, and how it ended.
\<close>

definition hydrate_item ::
  "(string \<Rightarrow> datetime option) \<Rightarrow> bool \<Rightarrow> plex_item \<Rightarrow> metadata \<Rightarrow> plex_item \<times> changed \<times> applied" where
  "hydrate_item fromisoformat dry_run item metadata =
     (let new_title = create_new_title (channel_name metadata) (title metadata);
          current_summary = (case summary item of None \<Rightarrow> [] | Some text \<Rightarrow> text);
          video_description = description metadata;
          youtube_publish_date = parse_youtube_date fromisoformat (published_at metadata);
          current_date = originallyAvailableAt item;
          title_changed = (item_title item \<noteq> new_title);
          summary_changed = (current_summary \<noteq> video_description);
          date_changed =
            (case youtube_publish_date of
               None \<Rightarrow> False
             | Some published \<Rightarrow>
                 (case current_date of
                    None \<Rightarrow> True
                  | Some current \<Rightarrow> date_of published \<noteq> date_of current));
          flags = \<lparr>title_changed = title_changed, summary_changed = summary_changed,
                   date_changed = date_changed\<rparr>
      in if \<not> dry_run \<and> (title_changed \<or> summary_changed \<or> date_changed) then
           (case apply_changes item title_changed new_title summary_changed video_description
                   date_changed youtube_publish_date of
              (item', changes, raised) \<Rightarrow>
                (item', flags, if raised then ApplyFailed changes else Applied changes))
         else if dry_run \<and> (title_changed \<or> summary_changed \<or> date_changed) then
           (item, flags,
            WouldUpdate
              ((if title_changed then [EditTitle new_title] else [])
               @ (if summary_changed \<and> video_description \<noteq> []
                  then [EditSummary video_description] else [])
               @ (case youtube_publish_date of
                    None \<Rightarrow> []
                  | Some published \<Rightarrow>
                      if date_changed then [EditOriginallyAvailable (date_of published)] else [])))
         else (item, flags, NoChanges))"

section \<open>The orchestration loop\<close>

text \<open>The branch of the body an item took.\<close>

datatype outcome = NoMediaFile | NoYouTubeId | NoMetadata | Hydrated metadata changed applied

text \<open>
  The variables of \<open>process_library_items\<close>, and what the run has done outside them:
  \<open>saved\<close> is the cache handed to the last call of \<open>save_cache\<close>, \<open>requests\<close> the identifiers
  asked of the provider in order, \<open>library_items\<close> the items gone through as the server
  holds them now, \<open>outcomes\<close> the branch each of them took, \<open>sleeps\<close> the number of delays.
\<close>

record run_state =
  cache :: cache
  processed_count :: nat
  updated_count :: nat
  failed_count :: nat
  cache_hits :: nat
  api_calls :: nat
  cache_saves :: nat
  saved :: "cache option"
  requests :: "string list"
  library_items :: "plex_item list"
  outcomes :: "outcome list"
  sleeps :: nat

definition initial_state :: "cache \<Rightarrow> run_state" where
  "initial_state loaded =
     \<lparr>cache = loaded, processed_count = 0, updated_count = 0, failed_count = 0,
      cache_hits = 0, api_calls = 0, cache_saves = 0, saved = None, requests = [],
      library_items = [], outcomes = [], sleeps = 0\<rparr>"

text \<open>\<open>save_cache(cache)\<close> followed by \<open>cache_saves += 1\<close>.\<close>

definition save_cache :: "run_state \<Rightarrow> run_state" where
  "save_cache s = s\<lparr>saved := Some (cache s), cache_saves := cache_saves s + 1\<rparr>"

text \<open>The three early exits: \<open>failed_count += 1\<close> and \<open>continue\<close>.\<close>

definition fail_item :: "outcome \<Rightarrow> plex_item \<Rightarrow> run_state \<Rightarrow> run_state" where
  "fail_item why item s =
     s\<lparr>failed_count := failed_count s + 1,
       library_items := library_items s @ [item],
       outcomes := outcomes s @ [why]\<rparr>"

text \<open>The end of the body for an item with metadata: the counters, the checkpoint, the delay.\<close>

definition finish_item ::
  "bool \<Rightarrow> metadata \<Rightarrow> plex_item \<times> changed \<times> applied \<Rightarrow> run_state \<Rightarrow> run_state" where
  "finish_item was_cached metadata result s =
     (case result of
        (item', flags, how) \<Rightarrow>
          (let s1 =
                 (case how of
                    Applied changes \<Rightarrow>
                      if changes \<noteq> [] then s\<lparr>updated_count := updated_count s + 1\<rparr> else s
                  | ApplyFailed changes \<Rightarrow> s\<lparr>failed_count := failed_count s + 1\<rparr>
                  | WouldUpdate changes \<Rightarrow> s\<lparr>updated_count := updated_count s + 1\<rparr>
                  | NoChanges \<Rightarrow> s);
               s2 = s1\<lparr>processed_count := processed_count s1 + 1,
                       library_items := library_items s1 @ [item'],
                       outcomes := outcomes s1 @ [Hydrated metadata flags how]\<rparr>;
               s3 = (if processed_count s2 mod 10 = 0 then save_cache s2 else s2)
           in if was_cached then s3 else s3\<lparr>sleeps := sleeps s3 + 1\<rparr>))"

text \<open>
  One iteration of the \<open>for\<close> loop. The lines the loop prints and logs are left out, and
  with them the parameter \<open>verbose\<close>, which only adds printed lines; \<open>save_cache\<close> logs a
  failed write and does not raise.
\<close>

definition process_item ::
  "(string \<Rightarrow> api_response) \<Rightarrow> (string \<Rightarrow> datetime option) \<Rightarrow> bool \<Rightarrow> run_state \<Rightarrow> plex_item
     \<Rightarrow> run_state" where
  "process_item youtube_service fromisoformat dry_run s item =
     (case media item of
        [] \<Rightarrow> fail_item NoMediaFile item s
      | [] # _ \<Rightarrow> fail_item NoMediaFile item s
      | (file_path # _) # _ \<Rightarrow>
          (case fst (extract_youtube_id file_path) of
             None \<Rightarrow> fail_item NoYouTubeId item s
           | Some youtube_id \<Rightarrow>
               (case get_cached_metadata (cache s) youtube_id of
                  Some cached_metadata \<Rightarrow>
                    finish_item True cached_metadata
                      (hydrate_item fromisoformat dry_run item cached_metadata)
                      (s\<lparr>cache_hits := cache_hits s + 1\<rparr>)
                | None \<Rightarrow>
                    (case get_youtube_metadata youtube_service youtube_id (cache s) of
                       (None, cache', asked) \<Rightarrow>
                         fail_item NoMetadata item
                           (s\<lparr>cache := cache', requests := requests s @ asked\<rparr>)
                     | (Some metadata, cache', asked) \<Rightarrow>
                         finish_item False metadata
                           (hydrate_item fromisoformat dry_run item metadata)
                           (s\<lparr>cache := cache', requests := requests s @ asked,
                              api_calls := api_calls s + 1\<rparr>)))))"

text \<open>The \<open>for\<close> loop over the items.\<close>

definition process_items ::
  "(string \<Rightarrow> api_response) \<Rightarrow> (string \<Rightarrow> datetime option) \<Rightarrow> bool \<Rightarrow> run_state
     \<Rightarrow> plex_item list \<Rightarrow> run_state" where
  "process_items youtube_service fromisoformat dry_run s items =
     foldl (process_item youtube_service fromisoformat dry_run) s items"



section \<open>What the loop does to one item\<close>

text \<open>
  The branch an item takes and the item the server holds afterwards, when the body runs
  on it with the cache \<open>c\<close>: read off one iteration of the loop.
\<close>

definition item_outcome ::
  "(string \<Rightarrow> api_response) \<Rightarrow> (string \<Rightarrow> datetime option) \<Rightarrow> bool \<Rightarrow> cache \<Rightarrow> plex_item
     \<Rightarrow> outcome" where
  "item_outcome youtube_service fromisoformat dry_run c item =
     last (outcomes (process_item youtube_service fromisoformat dry_run (initial_state c) item))"


text \<open>The item failed before the mutation stage: no media file, no identifier, no metadata.\<close>

fun early_failure :: "outcome \<Rightarrow> bool" where
  "early_failure (Hydrated metadata flags how) = False"
| "early_failure why = True"







section \<open>The date comparison in the words of the specification\<close>

definition leap_year :: "nat \<Rightarrow> bool" where
  "leap_year y = (y mod 4 = 0 \<and> (y mod 100 > 0 \<or> y mod 400 = 0))"

definition days_in_month :: "nat \<Rightarrow> nat \<Rightarrow> nat" where
  "days_in_month y m =
     (if m = 2 then (if leap_year y then 29 else 28)
      else if m = 4 \<or> m = 6 \<or> m = 9 \<or> m = 11 then 30 else 31)"

definition next_day :: "date \<Rightarrow> date" where
  "next_day d =
     (if day d < days_in_month (year d) (month d) then d\<lparr>day := day d + 1\<rparr>
      else if month d < 12 then \<lparr>year = year d, month = month d + 1, day = 1\<rparr>
      else \<lparr>year = year d + 1, month = 1, day = 1\<rparr>)"

definition previous_day :: "date \<Rightarrow> date" where
  "previous_day d =
     (if 1 < day d then d\<lparr>day := day d - 1\<rparr>
      else if 1 < month d
        then \<lparr>year = year d, month = month d - 1, day = days_in_month (year d) (month d - 1)\<rparr>
      else \<lparr>year = year d - 1, month = 12, day = 31\<rparr>)"

text \<open>
  The date component after normalizing to UTC: the offset, less than a day either way, is
  taken off the time of day, which moves the date by at most one day.
\<close>

definition utc_date :: "datetime \<Rightarrow> date" where
  "utc_date dt =
     (case utcoffset dt of
        None \<Rightarrow> date_of dt
      | Some offset \<Rightarrow>
          (let seconds = int (hour dt * 3600 + minute dt * 60 + second dt) - offset
           in if seconds < 0 then previous_day (date_of dt)
              else if 86400 \<le> seconds then next_day (date_of dt)
              else date_of dt))"

text \<open>
  The flag as the specification words it: false when the timestamp does not parse, true
  when the item has no date, else whether the UTC date of the timestamp differs from the
  date of the item.
\<close>

definition spec_date_changed ::
  "(string \<Rightarrow> datetime option) \<Rightarrow> plex_item \<Rightarrow> metadata \<Rightarrow> bool" where
  "spec_date_changed fromisoformat item metadata =
     (case parse_youtube_date fromisoformat (published_at metadata) of
        None \<Rightarrow> False
      | Some published \<Rightarrow>
          (case originallyAvailableAt item of
             None \<Rightarrow> True
           | Some current \<Rightarrow> utc_date published \<noteq> date_of current))"

section \<open>Timestamps with seconds and an offset\<close>

definition digit :: "char \<Rightarrow> nat option" where
  "digit c = (let n = (of_char c :: nat) in if 48 \<le> n \<and> n \<le> 57 then Some (n - 48) else None)"

definition number :: "string \<Rightarrow> nat option" where
  "number cs =
     foldl (\<lambda>acc c. case acc of
                      None \<Rightarrow> None
                    | Some a \<Rightarrow> (case digit c of None \<Rightarrow> None | Some d \<Rightarrow> Some (10 * a + d)))
       (Some 0) cs"

text \<open>
  \<open>datetime.fromisoformat\<close> on the 25 characters \<open>YYYY-MM-DDTHH:MM:SS+HH:MM\<close> (or with a
  minus sign), the form the provider's timestamps have once \<open>Z\<close> is replaced: the fields
  as written, the offset in seconds. Every other string is outside this fragment and
  yields \<open>None\<close> here.
\<close>

definition fromisoformat_seconds :: "string \<Rightarrow> datetime option" where
  "fromisoformat_seconds s =
     (if length s = 25 \<and> s ! 4 = CHR ''-'' \<and> s ! 7 = CHR ''-'' \<and> s ! 10 = CHR ''T''
         \<and> s ! 13 = CHR '':'' \<and> s ! 16 = CHR '':''
         \<and> (s ! 19 = CHR ''+'' \<or> s ! 19 = CHR ''-'') \<and> s ! 22 = CHR '':''
      then
        (case (number (take 4 s), number (take 2 (drop 5 s)), number (take 2 (drop 8 s)),
               number (take 2 (drop 11 s)), number (take 2 (drop 14 s)),
               number (take 2 (drop 17 s)), number (take 2 (drop 20 s)),
               number (take 2 (drop 23 s))) of
           (Some y, Some mo, Some d, Some h, Some mi, Some sec, Some oh, Some om) \<Rightarrow>
             if 1 \<le> y \<and> 1 \<le> mo \<and> mo \<le> 12 \<and> 1 \<le> d \<and> d \<le> days_in_month y mo
                \<and> h < 24 \<and> mi < 60 \<and> sec < 60 \<and> oh < 24 \<and> om < 60
             then Some \<lparr>year = y, month = mo, day = d, hour = h, minute = mi, second = sec,
                        microsecond = 0,
                        utcoffset = Some ((if s ! 19 = CHR ''-'' then - 1 else 1)
                                          * int (oh * 3600 + om * 60))\<rparr>
             else None
         | _ \<Rightarrow> None)
      else None)"

section \<open>A small library and provider\<close>

text \<open>
  The provider knows one video and one video with no description and no date, rejects
  one identifier with status 403 and finds nothing for any other.
\<close>

definition sample_service :: "string \<Rightarrow> api_response" where
  "sample_service video_id =
     (if video_id = ''dQw4w9WgXcQ'' then
        Response [Some \<lparr>snippet_title = Some ''Title: One'', channelTitle = Some ''AB/CD'',
                         snippet_description = Some ''About'',
                         publishedAt = Some ''2023-12-25T10:30:00Z''\<rparr>]
      else if video_id = ''ccccccccccc'' then
        Response [Some \<lparr>snippet_title = Some ''T'', channelTitle = Some ''C'',
                         snippet_description = None, publishedAt = None\<rparr>]
      else if video_id = ''aaaaaaaaaaa'' then HttpError 403
      else Response [])"

definition sample_metadata :: metadata where
  "sample_metadata =
     \<lparr>title = ''Title: One'', channel_name = ''AB/CD'', description = ''About'',
      published_at = ''2023-12-25T10:30:00Z''\<rparr>"

definition bare_metadata :: metadata where
  "bare_metadata = \<lparr>title = ''T'', channel_name = ''C'', description = [], published_at = []\<rparr>"

definition late_metadata :: metadata where
  "late_metadata =
     \<lparr>title = ''T'', channel_name = ''C'', description = [],
      published_at = ''2023-12-25T23:30:00-05:00''\<rparr>"

text \<open>An item never hydrated, whose file names the known video.\<close>

definition fresh_item :: plex_item where
  "fresh_item =
     \<lparr>item_title = ''clip'', summary = None, originallyAvailableAt = None,
      media = [[Some ''/v/[dQw4w9WgXcQ].mp4'']], edit_raises = (\<lambda>e. False)\<rparr>"


text \<open>An item with no media, and one whose file names a video the provider does not find.\<close>

definition no_media_item :: plex_item where
  "no_media_item = fresh_item\<lparr>media := []\<rparr>"


text \<open>
  An item that has the composed title and a summary of its own, for the video that has no
  description, and the same item dated 25 December 2023.
\<close>

definition summarized_item :: plex_item where
  "summarized_item =
     \<lparr>item_title = ''C - T'', summary = Some ''mine'', originallyAvailableAt = None,
      media = [[Some ''/v/[ccccccccccc].mp4'']], edit_raises = (\<lambda>e. False)\<rparr>"

definition dated_item :: plex_item where
  "dated_item =
     summarized_item\<lparr>originallyAvailableAt :=
       Some \<lparr>year = 2023, month = 12, day = 25, hour = 0, minute = 0, second = 0,
             microsecond = 0, utcoffset = None\<rparr>\<rparr>"




section \<open>Title composition: the example of the specification\<close>

text \<open>
  C2 (as stated): composing \<open>AB/CD\<close> and \<open>Title: One\<close> would give \<open>AB-CD - Title -One\<close>.
  The code does not return that string.
\<close>

theorem compose_example_as_stated_fails:
  "create_new_title ''AB/CD'' ''Title: One'' \<noteq> ''AB-CD - Title -One''"
  by code_simp

text \<open>
  C2 (amended): the colon becomes a space and a hyphen and the space that followed it
  stays, so the sanitized channel is \<open>AB-CD\<close>, the sanitized title is \<open>Title - One\<close>, and
  the composed title is \<open>AB-CD - Title - One\<close>.
\<close>

theorem compose_example:
  "sanitize_filename ''AB/CD'' = ''AB-CD''
   \<and> sanitize_filename ''Title: One'' = ''Title - One''
   \<and> create_new_title ''AB/CD'' ''Title: One'' = ''AB-CD - Title - One''"
  by code_simp

section \<open>Identifier extraction: rule order and diagnostics\<close>

lemma first_match_None:
  "first_match ps filename = None \<longleftrightarrow> (\<forall>pattern\<in>set ps. re_search pattern filename = None)"
  by (induction ps) (auto split: option.splits)



lemma re_search_Some_position:
  "re_search pattern s = Some t
   \<Longrightarrow> \<exists>i\<le>length s. match_here pattern (drop i s) = Some t
          \<and> (\<forall>j<i. match_here pattern (drop j s) = None)"
proof (induction s)
  case Nil
  then show ?case by simp
next
  case (Cons c cs)
  show ?case
  proof (cases "match_here pattern (c # cs)")
    case (Some group1)
    with Cons.prems have "match_here pattern (drop 0 (c # cs)) = Some t" by simp
    then show ?thesis by (intro exI [of _ 0]) simp
  next
    case None
    with Cons.prems have "re_search pattern cs = Some t" by simp
    with Cons.IH obtain i where i: "i \<le> length cs" "match_here pattern (drop i cs) = Some t"
      "\<forall>j<i. match_here pattern (drop j cs) = None" by blast
    have "\<forall>j<Suc i. match_here pattern (drop j (c # cs)) = None"
    proof (intro allI impI)
      fix j assume "j < Suc i"
      then show "match_here pattern (drop j (c # cs)) = None"
        using None i(3) by (cases j) auto
    qed
    with i show ?thesis by (intro exI [of _ "Suc i"]) simp
  qed
qed

lemma re_search_None:
  "re_search pattern s = None \<longleftrightarrow> (\<forall>i\<le>length s. match_here pattern (drop i s) = None)"
proof (induction s)
  case Nil
  then show ?case by simp
next
  case (Cons c cs)
  show ?case
  proof (cases "match_here pattern (c # cs)")
    case (Some group1)
    then have "match_here pattern (drop 0 (c # cs)) \<noteq> None" by simp
    with Some show ?thesis by (metis le0 option.simps(5) re_search.simps(2) option.distinct(1))
  next
    case None
    have "(\<forall>i\<le>length (c # cs). match_here pattern (drop i (c # cs)) = None)
          \<longleftrightarrow> (\<forall>i\<le>length cs. match_here pattern (drop i cs) = None)"
    proof
      assume a: "\<forall>i\<le>length (c # cs). match_here pattern (drop i (c # cs)) = None"
      show "\<forall>i\<le>length cs. match_here pattern (drop i cs) = None"
      proof (intro allI impI)
        fix i assume "i \<le> length cs"
        with a [rule_format, of "Suc i"]
        have "match_here pattern (drop (Suc i) (c # cs)) = None" by simp
        then show "match_here pattern (drop i cs) = None" by simp
      qed
    next
      assume a: "\<forall>i\<le>length cs. match_here pattern (drop i cs) = None"
      show "\<forall>i\<le>length (c # cs). match_here pattern (drop i (c # cs)) = None"
      proof (intro allI impI)
        fix i assume "i \<le> length (c # cs)"
        then show "match_here pattern (drop i (c # cs)) = None"
          using None a by (cases i) auto
      qed
    qed
    with None Cons.IH show ?thesis by simp
  qed
qed










text \<open>
  C9: for a missing or empty path the extractor returns \<open>None\<close> and logs nothing; a
  warning is logged exactly when the path is not empty and no pattern is found in its
  filename.
\<close>

theorem extract_empty_path_silent:
  "extract_youtube_id None = (None, [])
   \<and> extract_youtube_id (Some []) = (None, [])
   \<and> ((\<exists>message. (WARNING, message) \<in> set (snd (extract_youtube_id file_path)))
        \<longleftrightarrow> (\<exists>p. file_path = Some p \<and> p \<noteq> []
                 \<and> (\<forall>pattern\<in>set patterns. re_search pattern (basename p) = None)))"
proof (intro conjI)
  show "extract_youtube_id None = (None, [])" by (simp add: extract_youtube_id_def)
  show "extract_youtube_id (Some []) = (None, [])" by (simp add: extract_youtube_id_def)
  show "(\<exists>message. (WARNING, message) \<in> set (snd (extract_youtube_id file_path)))
        \<longleftrightarrow> (\<exists>p. file_path = Some p \<and> p \<noteq> []
                 \<and> (\<forall>pattern\<in>set patterns. re_search pattern (basename p) = None))"
  proof (cases file_path)
    case None
    then show ?thesis by (simp add: extract_youtube_id_def)
  next
    case (Some p)
    show ?thesis
    proof (cases "first_match patterns (basename p)")
      case None
      with Some show ?thesis
        using first_match_None [of patterns "basename p"]
        by (auto simp: extract_youtube_id_def Let_def)
    next
      case (Some video_id)
      with \<open>file_path = Some p\<close> show ?thesis
        using first_match_None [of patterns "basename p"]
        by (auto simp: extract_youtube_id_def Let_def)
    qed
  qed
qed

theorem extract_empty_path_silent_witness:
  "extract_youtube_id None = (None, [])
   \<and> extract_youtube_id (Some []) = (None, [])
   \<and> (\<exists>message. (WARNING, message) \<in> set (snd (extract_youtube_id (Some ''/videos/plain.mp4''))))"
proof -
  have b: "basename ''/videos/plain.mp4'' = ''plain.mp4''"
    by (simp add: basename_def)
  have "\<exists>p. Some ''/videos/plain.mp4'' = Some p \<and> p \<noteq> []
     \<and> (\<forall>pattern\<in>set patterns. re_search pattern (basename p) = None)"
    using b by (simp add: patterns_def match_here_def)
  then show ?thesis
    using extract_empty_path_silent [of "Some ''/videos/plain.mp4''"] by blast
qed

section \<open>One iteration of the loop\<close>

lemma get_youtube_metadata_hit:
  "c video_id = Some m \<Longrightarrow> get_youtube_metadata youtube_service video_id c = (Some m, c, [])"
  by (simp add: get_youtube_metadata_def get_cached_metadata_def)

lemma get_youtube_metadata_miss:
  assumes "c video_id = None"
  shows "snd (snd (get_youtube_metadata youtube_service video_id c)) = [video_id]"
    and "fst (get_youtube_metadata youtube_service video_id c) = None
         \<Longrightarrow> fst (snd (get_youtube_metadata youtube_service video_id c)) = c"
    and "fst (get_youtube_metadata youtube_service video_id c) = Some m
         \<Longrightarrow> fst (snd (get_youtube_metadata youtube_service video_id c)) = c(video_id \<mapsto> m)"
  using assms
  by (auto simp: get_youtube_metadata_def get_cached_metadata_def cache_metadata_def Let_def
      split: api_response.splits list.splits option.splits)

lemma lookup_after_store:
  assumes "c video_id = None" "fst (get_youtube_metadata youtube_service video_id c) = Some m"
  shows "fst (get_youtube_metadata youtube_service v (c(video_id \<mapsto> m)))
         = fst (get_youtube_metadata youtube_service v c)"
proof (cases "v = video_id")
  case True
  with assms show ?thesis by (simp add: get_youtube_metadata_hit)
next
  case False
  then show ?thesis
    by (auto simp: get_youtube_metadata_def get_cached_metadata_def Let_def
        split: option.splits api_response.splits list.splits)
qed

lemmas loop_defs =
  process_item_def finish_item_def fail_item_def save_cache_def get_cached_metadata_def Let_def

lemma item_outcome_eq:
  "item_outcome youtube_service fromisoformat dry_run c item =
     (case media item of
        [] \<Rightarrow> NoMediaFile
      | [] # _ \<Rightarrow> NoMediaFile
      | (file_path # _) # _ \<Rightarrow>
          (case fst (extract_youtube_id file_path) of
             None \<Rightarrow> NoYouTubeId
           | Some youtube_id \<Rightarrow>
               (case fst (get_youtube_metadata youtube_service youtube_id c) of
                  None \<Rightarrow> NoMetadata
                | Some metadata \<Rightarrow>
                    (case hydrate_item fromisoformat dry_run item metadata of
                       (item', flags, how) \<Rightarrow> Hydrated metadata flags how))))"
  by (auto simp: item_outcome_def initial_state_def loop_defs get_youtube_metadata_hit
      split: list.splits option.splits prod.splits applied.splits)


lemma process_item_outcomes:
  "outcomes (process_item youtube_service fromisoformat dry_run s item)
   = outcomes s @ [item_outcome youtube_service fromisoformat dry_run (cache s) item]"
  by (auto simp: item_outcome_eq loop_defs get_youtube_metadata_hit
      split: list.splits option.splits prod.splits applied.splits)



lemma fail_item_fields [simp]:
  "cache (fail_item why item s) = cache s"
  "processed_count (fail_item why item s) = processed_count s"
  "updated_count (fail_item why item s) = updated_count s"
  "failed_count (fail_item why item s) = failed_count s + 1"
  "cache_saves (fail_item why item s) = cache_saves s"
  "saved (fail_item why item s) = saved s"
  "requests (fail_item why item s) = requests s"
  by (simp_all add: fail_item_def)

lemma finish_item_fields [simp]:
  "cache (finish_item was_cached metadata result s) = cache s"
  "requests (finish_item was_cached metadata result s) = requests s"
  "processed_count (finish_item was_cached metadata result s) = processed_count s + 1"
  by (auto simp: finish_item_def save_cache_def Let_def split: prod.splits applied.splits)


lemma finish_item_saves:
  "cache_saves (finish_item was_cached metadata result s)
   = cache_saves s + (if (processed_count s + 1) mod 10 = 0 then 1 else 0)"
  "saved (finish_item was_cached metadata result s)
   = (if (processed_count s + 1) mod 10 = 0 then Some (cache s) else saved s)"
  by (auto simp: finish_item_def save_cache_def Let_def split: prod.splits applied.splits)

lemma process_item_cache:
  "cache (process_item youtube_service fromisoformat dry_run s item) = cache s
   \<or> (\<exists>video_id m. cache s video_id = None
         \<and> fst (get_youtube_metadata youtube_service video_id (cache s)) = Some m
         \<and> cache (process_item youtube_service fromisoformat dry_run s item)
           = (cache s)(video_id \<mapsto> m))"
proof (cases "media item")
  case Nil
  then show ?thesis by (simp add: process_item_def)
next
  case (Cons parts more)
  show ?thesis
  proof (cases parts)
    case Nil
    with Cons show ?thesis by (simp add: process_item_def)
  next
    case (Cons file_path others)
    note parts = this
    show ?thesis
    proof (cases "fst (extract_youtube_id file_path)")
      case None
      with parts \<open>media item = parts # more\<close> show ?thesis by (simp add: process_item_def)
    next
      case (Some youtube_id)
      note found = this
      show ?thesis
      proof (cases "cache s youtube_id")
        case (Some cached)
        with found parts \<open>media item = parts # more\<close> show ?thesis
          by (simp add: process_item_def get_cached_metadata_def)
      next
        case None
        obtain r c' asked where g:
          "get_youtube_metadata youtube_service youtube_id (cache s) = (r, c', asked)"
          by (cases "get_youtube_metadata youtube_service youtube_id (cache s)") auto
        show ?thesis
        proof (cases r)
          case None
          with g \<open>cache s youtube_id = None\<close> have "c' = cache s"
            using get_youtube_metadata_miss(2) [of "cache s" youtube_id youtube_service] by simp
          with None g found parts \<open>media item = parts # more\<close> \<open>cache s youtube_id = None\<close>
          show ?thesis
            by (simp add: process_item_def get_cached_metadata_def)
        next
          case (Some m)
          with g \<open>cache s youtube_id = None\<close> have "c' = (cache s)(youtube_id \<mapsto> m)"
            using get_youtube_metadata_miss(3) [of "cache s" youtube_id youtube_service m] by simp
          with Some g found parts \<open>media item = parts # more\<close> \<open>cache s youtube_id = None\<close>
          show ?thesis
            by (auto simp: process_item_def get_cached_metadata_def)
        qed
      qed
    qed
  qed
qed

lemma process_item_lookup:
  "fst (get_youtube_metadata youtube_service v
          (cache (process_item youtube_service fromisoformat dry_run s item)))
   = fst (get_youtube_metadata youtube_service v (cache s))"
  using process_item_cache [of youtube_service fromisoformat dry_run s item]
  by (auto simp: lookup_after_store)

lemma item_outcome_cong:
  assumes "\<And>v. fst (get_youtube_metadata youtube_service v c')
               = fst (get_youtube_metadata youtube_service v c)"
  shows "item_outcome youtube_service fromisoformat dry_run c' item
         = item_outcome youtube_service fromisoformat dry_run c item"
  by (simp add: item_outcome_eq assms split: list.splits option.splits)


lemma process_items_Nil [simp]:
  "process_items youtube_service fromisoformat dry_run s [] = s"
  by (simp add: process_items_def)

lemma process_items_Cons [simp]:
  "process_items youtube_service fromisoformat dry_run s (item # items)
   = process_items youtube_service fromisoformat dry_run
       (process_item youtube_service fromisoformat dry_run s item) items"
  by (simp add: process_items_def)

lemma process_items_outcomes:
  "outcomes (process_items youtube_service fromisoformat dry_run s items)
   = outcomes s @ map (item_outcome youtube_service fromisoformat dry_run (cache s)) items"
proof (induction items arbitrary: s)
  case Nil
  show ?case by simp
next
  case (Cons item items)
  have "map (item_outcome youtube_service fromisoformat dry_run
               (cache (process_item youtube_service fromisoformat dry_run s item))) items
        = map (item_outcome youtube_service fromisoformat dry_run (cache s)) items"
    by (intro map_cong refl item_outcome_cong process_item_lookup)
  then show ?case
    by (simp add: Cons.IH process_item_outcomes)
qed



lemma process_item_cases [case_names no_media no_id hit miss_failed miss_found]:
  obtains
    (no_media)
      "process_item youtube_service fromisoformat dry_run s item = fail_item NoMediaFile item s"
      "item_outcome youtube_service fromisoformat dry_run (cache s) item = NoMediaFile"
  | (no_id)
      "process_item youtube_service fromisoformat dry_run s item = fail_item NoYouTubeId item s"
      "item_outcome youtube_service fromisoformat dry_run (cache s) item = NoYouTubeId"
  | (hit) video_id m where
      "cache s video_id = Some m"
      "process_item youtube_service fromisoformat dry_run s item
       = finish_item True m (hydrate_item fromisoformat dry_run item m)
           (s\<lparr>cache_hits := cache_hits s + 1\<rparr>)"
      "item_outcome youtube_service fromisoformat dry_run (cache s) item
       = Hydrated m (fst (snd (hydrate_item fromisoformat dry_run item m)))
           (snd (snd (hydrate_item fromisoformat dry_run item m)))"
  | (miss_failed) video_id where
      "cache s video_id = None"
      "fst (get_youtube_metadata youtube_service video_id (cache s)) = None"
      "process_item youtube_service fromisoformat dry_run s item
       = fail_item NoMetadata item (s\<lparr>requests := requests s @ [video_id]\<rparr>)"
      "item_outcome youtube_service fromisoformat dry_run (cache s) item = NoMetadata"
  | (miss_found) video_id m where
      "cache s video_id = None"
      "fst (get_youtube_metadata youtube_service video_id (cache s)) = Some m"
      "process_item youtube_service fromisoformat dry_run s item
       = finish_item False m (hydrate_item fromisoformat dry_run item m)
           (s\<lparr>cache := (cache s)(video_id \<mapsto> m), requests := requests s @ [video_id],
              api_calls := api_calls s + 1\<rparr>)"
      "item_outcome youtube_service fromisoformat dry_run (cache s) item
       = Hydrated m (fst (snd (hydrate_item fromisoformat dry_run item m)))
           (snd (snd (hydrate_item fromisoformat dry_run item m)))"
proof (cases "media item")
  case Nil
  then show ?thesis
    using no_media by (simp add: process_item_def item_outcome_eq)
next
  case (Cons parts more)
  note media = this
  show ?thesis
  proof (cases parts)
    case Nil
    with media show ?thesis
      using no_media by (simp add: process_item_def item_outcome_eq)
  next
    case (Cons file_path others)
    note parts = this
    show ?thesis
    proof (cases "fst (extract_youtube_id file_path)")
      case None
      with parts media show ?thesis
        using no_id by (simp add: process_item_def item_outcome_eq)
    next
      case (Some youtube_id)
      note found = this
      show ?thesis
      proof (cases "cache s youtube_id")
        case (Some cached)
        with found parts media show ?thesis
          using hit [of youtube_id cached]
          by (simp add: process_item_def item_outcome_eq get_cached_metadata_def
              get_youtube_metadata_hit split: prod.splits)
      next
        case None
        note miss = this
        obtain r c' asked where g:
          "get_youtube_metadata youtube_service youtube_id (cache s) = (r, c', asked)"
          by (cases "get_youtube_metadata youtube_service youtube_id (cache s)") auto
        have asked: "asked = [youtube_id]"
          using get_youtube_metadata_miss(1) [of "cache s" youtube_id youtube_service] miss g
          by simp
        show ?thesis
        proof (cases r)
          case None
          with g miss have "c' = cache s"
            using get_youtube_metadata_miss(2) [of "cache s" youtube_id youtube_service] by simp
          with None g asked found parts media miss show ?thesis
            using miss_failed [of youtube_id]
            by (simp add: process_item_def item_outcome_eq get_cached_metadata_def)
        next
          case (Some m)
          with g miss have "c' = (cache s)(youtube_id \<mapsto> m)"
            using get_youtube_metadata_miss(3) [of "cache s" youtube_id youtube_service m] by simp
          with Some g asked found parts media miss show ?thesis
            using miss_found [of youtube_id m]
            by (simp add: process_item_def item_outcome_eq get_cached_metadata_def
                split: prod.splits)
        qed
      qed
    qed
  qed
qed



lemma process_item_processed:
  "processed_count (process_item youtube_service fromisoformat dry_run s item)
   = processed_count s
     + (if early_failure (item_outcome youtube_service fromisoformat dry_run (cache s) item)
        then 0 else 1)"
  by (cases rule: process_item_cases [of youtube_service fromisoformat dry_run s item])
     simp_all


lemma process_item_saves:
  "cache_saves (process_item youtube_service fromisoformat dry_run s item)
   = cache_saves s
     + (if \<not> early_failure (item_outcome youtube_service fromisoformat dry_run (cache s) item)
           \<and> (processed_count s + 1) mod 10 = 0
        then 1 else 0)"
  by (cases rule: process_item_cases [of youtube_service fromisoformat dry_run s item])
     (simp_all add: finish_item_saves)

lemma process_item_saved:
  "saved (process_item youtube_service fromisoformat dry_run s item)
   = (if \<not> early_failure (item_outcome youtube_service fromisoformat dry_run (cache s) item)
         \<and> (processed_count s + 1) mod 10 = 0
      then Some (cache (process_item youtube_service fromisoformat dry_run s item))
      else saved s)"
  by (cases rule: process_item_cases [of youtube_service fromisoformat dry_run s item])
     (simp_all add: finish_item_saves)

lemma process_item_early_cache:
  "early_failure (item_outcome youtube_service fromisoformat dry_run (cache s) item)
   \<Longrightarrow> cache (process_item youtube_service fromisoformat dry_run s item) = cache s"
  by (cases rule: process_item_cases [of youtube_service fromisoformat dry_run s item])
     simp_all

text \<open>The checkpoint invariant of the loop.\<close>

lemma process_items_checkpoint:
  assumes "cache_saves s = processed_count s div 10"
    and "0 < processed_count s \<and> processed_count s mod 10 = 0 \<longrightarrow> saved s = Some (cache s)"
  shows "cache_saves (process_items youtube_service fromisoformat dry_run s items)
         = processed_count (process_items youtube_service fromisoformat dry_run s items) div 10
       \<and> (0 < processed_count (process_items youtube_service fromisoformat dry_run s items)
          \<and> processed_count (process_items youtube_service fromisoformat dry_run s items) mod 10 = 0
          \<longrightarrow> saved (process_items youtube_service fromisoformat dry_run s items)
              = Some (cache (process_items youtube_service fromisoformat dry_run s items)))"
  using assms
proof (induction items arbitrary: s)
  case Nil
  then show ?case by simp
next
  case (Cons item items)
  let ?s' = "process_item youtube_service fromisoformat dry_run s item"
  let ?oc = "item_outcome youtube_service fromisoformat dry_run (cache s) item"
  have saves: "cache_saves ?s' = processed_count ?s' div 10"
  proof (cases "early_failure ?oc")
    case True
    with Cons.prems(1) show ?thesis
      by (simp add: process_item_saves process_item_processed)
  next
    case False
    have "(processed_count s + 1) div 10
          = processed_count s div 10 + (if (processed_count s + 1) mod 10 = 0 then 1 else 0)"
      by presburger
    with False Cons.prems(1) show ?thesis
      by (simp add: process_item_saves process_item_processed)
  qed
  have saved: "0 < processed_count ?s' \<and> processed_count ?s' mod 10 = 0
               \<longrightarrow> saved ?s' = Some (cache ?s')"
  proof (cases "early_failure ?oc")
    case True
    with Cons.prems(2) show ?thesis
      by (simp add: process_item_saved process_item_processed process_item_early_cache)
  next
    case False
    then show ?thesis
      by (simp add: process_item_saved process_item_processed)
  qed
  from Cons.IH [OF saves saved] show ?case by simp
qed

section \<open>Checkpoints and failed lookups\<close>

lemma outcomes_after_item:
  "item_outcome youtube_service fromisoformat dry_run
     (cache (process_item youtube_service fromisoformat dry_run s item))
   = item_outcome youtube_service fromisoformat dry_run (cache s)"
  by (intro ext item_outcome_cong process_item_lookup)


lemma process_items_processed:
  "processed_count (process_items youtube_service fromisoformat dry_run s items)
   = processed_count s
     + length (filter (\<lambda>oc. \<not> early_failure oc)
         (map (item_outcome youtube_service fromisoformat dry_run (cache s)) items))"
  by (induction items arbitrary: s) (simp_all add: process_item_processed outcomes_after_item)


lemma initial_state_fields [simp]:
  "cache (initial_state c) = c"
  "processed_count (initial_state c) = 0"
  "updated_count (initial_state c) = 0"
  "failed_count (initial_state c) = 0"
  "cache_saves (initial_state c) = 0"
  "saved (initial_state c) = None"
  "requests (initial_state c) = []"
  "library_items (initial_state c) = []"
  "outcomes (initial_state c) = []"
  by (simp_all add: initial_state_def)

lemma run_outcomes:
  "outcomes (process_items youtube_service fromisoformat dry_run (initial_state c) items)
   = map (item_outcome youtube_service fromisoformat dry_run c) items"
  by (simp add: process_items_outcomes)


text \<open>
  C1 (amended): after every prefix of the items, the number of cache saves made in the
  loop is the processed counter divided by ten, the processed counter counts the items
  that did not fail before the mutation stage, and when it stands at a positive multiple
  of ten the cache last saved is the cache as it is.
\<close>

theorem checkpoint_every_ten_processed:
  "cache_saves (process_items youtube_service fromisoformat dry_run (initial_state c) (take n items))
   = processed_count
       (process_items youtube_service fromisoformat dry_run (initial_state c) (take n items)) div 10
   \<and> processed_count
       (process_items youtube_service fromisoformat dry_run (initial_state c) (take n items))
     = length (filter (\<lambda>oc. \<not> early_failure oc)
         (outcomes
            (process_items youtube_service fromisoformat dry_run (initial_state c) (take n items))))
   \<and> (0 < processed_count
             (process_items youtube_service fromisoformat dry_run (initial_state c) (take n items))
       \<and> processed_count
             (process_items youtube_service fromisoformat dry_run (initial_state c) (take n items))
           mod 10 = 0
       \<longrightarrow> saved (process_items youtube_service fromisoformat dry_run (initial_state c) (take n items))
           = Some (cache
               (process_items youtube_service fromisoformat dry_run (initial_state c)
                  (take n items))))"
proof -
  have "cache_saves (initial_state c) = processed_count (initial_state c) div 10"
    and "0 < processed_count (initial_state c) \<and> processed_count (initial_state c) mod 10 = 0
         \<longrightarrow> saved (initial_state c) = Some (cache (initial_state c))"
    by simp_all
  from process_items_checkpoint [OF this] show ?thesis
    by (simp add: process_items_processed run_outcomes)
qed

theorem checkpoint_every_ten_processed_witness:
  "cache_saves
     (process_items sample_service fromisoformat_seconds True (initial_state Map.empty)
        (take 10 (replicate 12 fresh_item))) = 1
   \<and> saved
       (process_items sample_service fromisoformat_seconds True (initial_state Map.empty)
          (take 10 (replicate 12 fresh_item)))
     = Some (cache
         (process_items sample_service fromisoformat_seconds True (initial_state Map.empty)
            (take 10 (replicate 12 fresh_item))))"
proof -
  have "\<not> early_failure (item_outcome sample_service fromisoformat_seconds True Map.empty fresh_item)"
    by code_simp
  then have "processed_count
          (process_items sample_service fromisoformat_seconds True (initial_state Map.empty)
             (take 10 (replicate 12 fresh_item))) = 10"
    by (simp add: process_items_processed)
  then show ?thesis
    using checkpoint_every_ten_processed
      [of sample_service fromisoformat_seconds True Map.empty 10 "replicate 12 fresh_item"]
    by simp
qed

text \<open>
  C1 (as stated): after ten items have reached a terminal state a save would have been
  made. Ten items with no media file all end as failed, and no save is made.
\<close>

theorem checkpoint_after_ten_failed_items_fails:
  "failed_count
     (process_items sample_service fromisoformat_seconds False (initial_state Map.empty)
        (replicate 10 no_media_item)) = 10
   \<and> length
       (outcomes
          (process_items sample_service fromisoformat_seconds False (initial_state Map.empty)
             (replicate 10 no_media_item))) = 10
   \<and> cache_saves
       (process_items sample_service fromisoformat_seconds False (initial_state Map.empty)
          (replicate 10 no_media_item)) = 0"
  by code_simp

text \<open>
  C5: when the provider finds nothing for an identifier or the lookup raises, the cache
  is left as it was, with the same keys, and on a cache miss the result is \<open>None\<close>.
\<close>

theorem failed_lookup_not_cached:
  assumes "youtube_service video_id = Response []
           \<or> (\<exists>rest. youtube_service video_id = Response (None # rest))
           \<or> (\<exists>status. youtube_service video_id = HttpError status)
           \<or> youtube_service video_id = OtherException"
  shows "fst (snd (get_youtube_metadata youtube_service video_id c)) = c
         \<and> dom (fst (snd (get_youtube_metadata youtube_service video_id c))) = dom c
         \<and> (get_cached_metadata c video_id = None
              \<longrightarrow> fst (get_youtube_metadata youtube_service video_id c) = None)"
  using assms
  by (auto simp: get_youtube_metadata_def split: option.splits)

theorem failed_lookup_not_cached_witness:
  "fst (snd (get_youtube_metadata sample_service ''aaaaaaaaaaa'' Map.empty)) = Map.empty
   \<and> fst (get_youtube_metadata sample_service ''aaaaaaaaaaa'' Map.empty) = None
   \<and> fst (snd (get_youtube_metadata sample_service ''bbbbbbbbbbb'' Map.empty)) = Map.empty
   \<and> fst (get_youtube_metadata sample_service ''bbbbbbbbbbb'' Map.empty) = None"
proof -
  have a: "sample_service ''aaaaaaaaaaa'' = Response []
           \<or> (\<exists>rest. sample_service ''aaaaaaaaaaa'' = Response (None # rest))
           \<or> (\<exists>status. sample_service ''aaaaaaaaaaa'' = HttpError status)
           \<or> sample_service ''aaaaaaaaaaa'' = OtherException"
    by (simp add: sample_service_def)
  have b: "sample_service ''bbbbbbbbbbb'' = Response []
           \<or> (\<exists>rest. sample_service ''bbbbbbbbbbb'' = Response (None # rest))
           \<or> (\<exists>status. sample_service ''bbbbbbbbbbb'' = HttpError status)
           \<or> sample_service ''bbbbbbbbbbb'' = OtherException"
    by (simp add: sample_service_def)
  have miss: "get_cached_metadata Map.empty ''aaaaaaaaaaa'' = None"
    "get_cached_metadata Map.empty ''bbbbbbbbbbb'' = None"
    by (simp_all add: get_cached_metadata_def)
  show ?thesis
    using failed_lookup_not_cached [of sample_service "''aaaaaaaaaaa''" Map.empty]
      failed_lookup_not_cached [of sample_service "''bbbbbbbbbbb''" Map.empty] a b miss
    by simp
qed

section \<open>Provider requests\<close>









section \<open>Mutation failures and the counters\<close>














section \<open>Partial failure\<close>








section \<open>The date flag\<close>

lemma str_replace_append:
  "str_replace old new (xs @ ys) = str_replace old new xs @ str_replace old new ys"
  by (simp add: str_replace_def)

lemma endswith_Z:
  "endswith published ''Z'' \<longleftrightarrow> published \<noteq> [] \<and> last published = CHR ''Z''"
proof (cases published rule: rev_cases)
  case Nil
  then show ?thesis by (simp add: endswith_def)
next
  case (snoc front c)
  then show ?thesis by (auto simp: endswith_def)
qed

lemma parse_youtube_date_eq:
  "parse_youtube_date fromisoformat published
   = (if published = [] then None
      else fromisoformat (str_replace (CHR ''Z'') ''+00:00'' published))"
proof (cases "endswith published ''Z''")
  case True
  then have split: "published = butlast published @ [CHR ''Z'']"
    using append_butlast_last_id [of published] by (simp add: endswith_Z)
  have "str_replace (CHR ''Z'') ''+00:00'' (butlast published @ [CHR ''Z''])
             = str_replace (CHR ''Z'') ''+00:00'' (butlast published) @ ''+00:00''"
    by (simp add: str_replace_def)
  with split have "str_replace (CHR ''Z'') ''+00:00'' published
             = str_replace (CHR ''Z'') ''+00:00'' (butlast published) @ ''+00:00''"
    by simp
  moreover have "str_replace (CHR ''Z'') ''+00:00'' (butlast published @ ''+00:00'')
             = str_replace (CHR ''Z'') ''+00:00'' (butlast published) @ ''+00:00''"
    by (simp add: str_replace_def)
  ultimately show ?thesis
    using True by (simp add: parse_youtube_date_def Let_def)
next
  case False
  then show ?thesis by (simp add: parse_youtube_date_def Let_def)
qed

lemma hydrate_item_date_flag:
  "date_changed (fst (snd (hydrate_item fromisoformat dry_run item metadata)))
   = (case parse_youtube_date fromisoformat (published_at metadata) of
        None \<Rightarrow> False
      | Some published \<Rightarrow>
          (case originallyAvailableAt item of
             None \<Rightarrow> True
           | Some current \<Rightarrow> date_of published \<noteq> date_of current))"
  by (simp add: hydrate_item_def Let_def split: prod.splits)

lemma utc_date_of_utc:
  assumes "utcoffset dt = None \<or> utcoffset dt = Some 0"
    and "hour dt < 24" "minute dt < 60" "second dt < 60"
  shows "utc_date dt = date_of dt"
proof -
  have "hour dt * 3600 + minute dt * 60 + second dt < 86400"
    using assms(2-4) by linarith
  with assms(1) show ?thesis
    by (auto simp: utc_date_def Let_def)
qed

text \<open>
  C3 (amended): the date flag is false when the publish date is empty or does not parse;
  otherwise it is true when the item has no date, and else it tells whether the date of
  the parsed timestamp, taken as the timestamp writes it (a final \<open>Z\<close> read as \<open>+00:00\<close>),
  differs from the date of the item. For a timestamp at offset zero or with no offset
  this is the comparison with the UTC date that the specification words.
\<close>

theorem date_flag_from_parsed_date:
  "(published_at metadata = []
      \<or> fromisoformat (str_replace (CHR ''Z'') ''+00:00'' (published_at metadata)) = None
      \<longrightarrow> \<not> date_changed (fst (snd (hydrate_item fromisoformat dry_run item metadata))))
   \<and> (published_at metadata \<noteq> []
       \<and> fromisoformat (str_replace (CHR ''Z'') ''+00:00'' (published_at metadata))
         = Some published
      \<longrightarrow> (originallyAvailableAt item = None
            \<longrightarrow> date_changed (fst (snd (hydrate_item fromisoformat dry_run item metadata))))
          \<and> (originallyAvailableAt item = Some current
            \<longrightarrow> date_changed (fst (snd (hydrate_item fromisoformat dry_run item metadata)))
                = (date_of published \<noteq> date_of current))
          \<and> ((utcoffset published = None \<or> utcoffset published = Some 0)
              \<and> hour published < 24 \<and> minute published < 60 \<and> second published < 60
            \<longrightarrow> date_changed (fst (snd (hydrate_item fromisoformat dry_run item metadata)))
                = spec_date_changed fromisoformat item metadata))"
proof (intro conjI impI)
  assume "published_at metadata = []
      \<or> fromisoformat (str_replace (CHR ''Z'') ''+00:00'' (published_at metadata)) = None"
  then have "parse_youtube_date fromisoformat (published_at metadata) = None"
    by (auto simp: parse_youtube_date_eq)
  then show "\<not> date_changed (fst (snd (hydrate_item fromisoformat dry_run item metadata)))"
    by (simp add: hydrate_item_date_flag)
next
  assume p: "published_at metadata \<noteq> []
       \<and> fromisoformat (str_replace (CHR ''Z'') ''+00:00'' (published_at metadata))
         = Some published"
  then have parsed: "parse_youtube_date fromisoformat (published_at metadata) = Some published"
    by (simp add: parse_youtube_date_eq)
  {
    assume "originallyAvailableAt item = None"
    with parsed
    show "date_changed (fst (snd (hydrate_item fromisoformat dry_run item metadata)))"
      by (simp add: hydrate_item_date_flag)
  }
  {
    assume "originallyAvailableAt item = Some current"
    with parsed
    show "date_changed (fst (snd (hydrate_item fromisoformat dry_run item metadata)))
          = (date_of published \<noteq> date_of current)"
      by (simp add: hydrate_item_date_flag)
  }
  {
    assume "(utcoffset published = None \<or> utcoffset published = Some 0)
              \<and> hour published < 24 \<and> minute published < 60 \<and> second published < 60"
    then have "utc_date published = date_of published"
      using utc_date_of_utc [of published] by blast
    with parsed
    show "date_changed (fst (snd (hydrate_item fromisoformat dry_run item metadata)))
                = spec_date_changed fromisoformat item metadata"
      by (simp add: hydrate_item_date_flag spec_date_changed_def split: option.splits)
  }
qed

lemma sample_parses:
  "fromisoformat_seconds (str_replace (CHR ''Z'') ''+00:00'' (published_at sample_metadata))
   = Some \<lparr>year = 2023, month = 12, day = 25, hour = 10, minute = 30, second = 0,
           microsecond = 0, utcoffset = Some 0\<rparr>"
  "fromisoformat_seconds (str_replace (CHR ''Z'') ''+00:00'' (published_at late_metadata))
   = Some \<lparr>year = 2023, month = 12, day = 25, hour = 23, minute = 30, second = 0,
           microsecond = 0, utcoffset = Some (- 18000)\<rparr>"
  by (simp_all add: fromisoformat_seconds_def number_def digit_def days_in_month_def
      leap_year_def str_replace_def sample_metadata_def late_metadata_def)


lemma sample_parsed:
  "parse_youtube_date fromisoformat_seconds (published_at sample_metadata)
   = Some \<lparr>year = 2023, month = 12, day = 25, hour = 10, minute = 30, second = 0,
           microsecond = 0, utcoffset = Some 0\<rparr>"
  "parse_youtube_date fromisoformat_seconds (published_at late_metadata)
   = Some \<lparr>year = 2023, month = 12, day = 25, hour = 23, minute = 30, second = 0,
           microsecond = 0, utcoffset = Some (- 18000)\<rparr>"
  "parse_youtube_date fromisoformat_seconds (published_at bare_metadata) = None"
  using sample_parses
  by (simp_all add: parse_youtube_date_eq)
     (simp_all add: sample_metadata_def late_metadata_def bare_metadata_def)

theorem date_flag_from_parsed_date_witness:
  "\<not> date_changed (fst (snd (hydrate_item fromisoformat_seconds False dated_item bare_metadata)))
   \<and> date_changed (fst (snd (hydrate_item fromisoformat_seconds False fresh_item sample_metadata)))
   \<and> \<not> date_changed (fst (snd (hydrate_item fromisoformat_seconds False dated_item late_metadata)))
   \<and> date_changed (fst (snd (hydrate_item fromisoformat_seconds False dated_item sample_metadata)))
     = spec_date_changed fromisoformat_seconds dated_item sample_metadata"
proof -
  have empty: "published_at bare_metadata = []"
    by (simp add: bare_metadata_def)
  have filled: "published_at sample_metadata \<noteq> []" "published_at late_metadata \<noteq> []"
    by (simp_all add: sample_metadata_def late_metadata_def)
  have unset: "originallyAvailableAt fresh_item = None"
    by (simp add: fresh_item_def)
  have set: "originallyAvailableAt dated_item
             = Some \<lparr>year = 2023, month = 12, day = 25, hour = 0, minute = 0, second = 0,
                     microsecond = 0, utcoffset = None\<rparr>"
    by (simp add: dated_item_def summarized_item_def)
  have c1: "\<not> date_changed
              (fst (snd (hydrate_item fromisoformat_seconds False dated_item bare_metadata)))"
    using date_flag_from_parsed_date
      [of bare_metadata fromisoformat_seconds False dated_item] empty
    by simp
  have c2: "date_changed
              (fst (snd (hydrate_item fromisoformat_seconds False fresh_item sample_metadata)))"
    using date_flag_from_parsed_date
      [of sample_metadata fromisoformat_seconds False fresh_item
        "\<lparr>year = 2023, month = 12, day = 25, hour = 10, minute = 30, second = 0,
           microsecond = 0, utcoffset = Some 0\<rparr>"]
      filled unset sample_parses(1)
    by simp
  have c3: "\<not> date_changed
              (fst (snd (hydrate_item fromisoformat_seconds False dated_item late_metadata)))"
    using date_flag_from_parsed_date
      [of late_metadata fromisoformat_seconds False dated_item
        "\<lparr>year = 2023, month = 12, day = 25, hour = 23, minute = 30, second = 0,
           microsecond = 0, utcoffset = Some (- 18000)\<rparr>"
        "\<lparr>year = 2023, month = 12, day = 25, hour = 0, minute = 0, second = 0,
           microsecond = 0, utcoffset = None\<rparr>"]
      filled set sample_parses(2)
    by (simp add: date_of_def)
  have c4: "date_changed
              (fst (snd (hydrate_item fromisoformat_seconds False dated_item sample_metadata)))
            = spec_date_changed fromisoformat_seconds dated_item sample_metadata"
    using date_flag_from_parsed_date
      [of sample_metadata fromisoformat_seconds False dated_item
        "\<lparr>year = 2023, month = 12, day = 25, hour = 10, minute = 30, second = 0,
           microsecond = 0, utcoffset = Some 0\<rparr>"]
      filled sample_parses(1)
    by simp
  from c1 c2 c3 c4 show ?thesis by blast
qed

text \<open>
  C3 (as stated): the parsed timestamp would be normalized to UTC before its date is
  taken. A timestamp of 23:30 on 25 December at five hours west of UTC is the 26th in
  UTC; against an item dated the 25th the code sets no flag, the specification's
  comparison does.
\<close>

theorem date_flag_without_utc_normalization:
  "date_changed (fst (snd (hydrate_item fromisoformat_seconds False dated_item late_metadata)))
   \<noteq> spec_date_changed fromisoformat_seconds dated_item late_metadata"
proof -
  have set: "originallyAvailableAt dated_item
             = Some \<lparr>year = 2023, month = 12, day = 25, hour = 0, minute = 0, second = 0,
                     microsecond = 0, utcoffset = None\<rparr>"
    by (simp add: dated_item_def summarized_item_def)
  have code: "\<not> date_changed
                (fst (snd (hydrate_item fromisoformat_seconds False dated_item late_metadata)))"
    by (simp add: hydrate_item_date_flag sample_parsed set date_of_def)
  have spec: "spec_date_changed fromisoformat_seconds dated_item late_metadata"
    by (simp add: spec_date_changed_def sample_parsed set utc_date_def date_of_def next_day_def
        days_in_month_def Let_def)
  from code spec show ?thesis by simp
qed

section \<open>Running twice\<close>


lemma try_edit_raised:
  "try_edit wanted e (item, changes, True) = (item, changes, True)"
  by (simp add: try_edit_def)




lemma date_of_midnight:
  "date_of \<lparr>year = year d, month = month d, day = day d, hour = h, minute = mi, second = sec,
            microsecond = us, utcoffset = off\<rparr>
   = \<lparr>year = year d, month = month d, day = day d\<rparr>"
  by (simp add: date_of_def)
















end
